theory Spec2Isabelle
  imports Complex_Main "HOL-Library.Sublist" "HOL-Library.AList"
begin

section \<open>Data model\<close>

text \<open>
  The interfaces \<^verbatim>\<open>NodeProfile\<close> and \<^verbatim>\<open>WorkflowProfile\<close> of the type
  declarations, with the fields of the fuller declaration in \<^verbatim>\<open>modules.d.ts\<close>
  (\<^verbatim>\<open>nodeId\<close> is the key of \<open>nodes\<close>; the size tables are left out). Timestamps are
  millisecond counts and are modelled as \<open>int\<close>, byte counts as \<open>nat\<close>. \<open>nodes\<close> is
  a \<^verbatim>\<open>Record<string, NodeProfile>\<close>; it is kept as an association list because a
  JavaScript object enumerates its string keys in insertion order. A node that is still
  in flight has no \<open>endTime\<close> and no \<open>cacheHit\<close> yet, and a run that is in flight no
  \<open>endTime\<close>, which is written with \<open>option\<close>.
\<close>

record NodeProfile =
  nodeType :: string
  startTime :: int
  endTime :: "int option"
  vramBefore :: nat
  vramAfter :: nat
  ramBefore :: nat
  ramAfter :: nat
  cacheHit :: "bool option"
  error :: "string option"

record WorkflowProfile =
  promptId :: string
  startTime :: int
  endTime :: "int option"
  nodes :: "(string \<times> NodeProfile) list"
  executionOrder :: "string list"
  totalVramPeak :: nat
  totalRamPeak :: nat
  cacheHits :: nat
  cacheMisses :: nat

text \<open>A finalized run without nodes that started at \<open>t\<close> and ended at once.\<close>

definition profile_at :: "int \<Rightarrow> WorkflowProfile" where
  "profile_at t =
     \<lparr>promptId = ''p'', startTime = t, endTime = Some t, nodes = [], executionOrder = [],
      totalVramPeak = 0, totalRamPeak = 0, cacheHits = 0, cacheMisses = 0\<rparr>"

section \<open>Time range selector\<close>

text \<open>
  \<^verbatim>\<open>TimeRangeOption\<close>; its fields \<^verbatim>\<open>value\<close> and \<^verbatim>\<open>label\<close> carry a prefix here,
  \<open>value\<close> being a keyword.
\<close>

record TimeRangeOption =
  opt_value :: string
  opt_label :: string

text \<open>The \<^verbatim>\<open>options\<close> array of \<^verbatim>\<open>createTimeRangeSelector\<close>.\<close>

definition options :: "TimeRangeOption list" where
  "options =
     [\<lparr>opt_value = ''1h'', opt_label = ''1 hour''\<rparr>,
      \<lparr>opt_value = ''6h'', opt_label = ''6 hours''\<rparr>,
      \<lparr>opt_value = ''24h'', opt_label = ''24 hours''\<rparr>,
      \<lparr>opt_value = ''7d'', opt_label = ''7 days''\<rparr>,
      \<lparr>opt_value = ''all'', opt_label = ''All time''\<rparr>]"

text \<open>
  An \<^verbatim>\<open><option>\<close> element, reduced to the two properties the code sets, and the
  selector, reduced to the children of its \<^verbatim>\<open><select>\<close> in document order. The
  \<^verbatim>\<open>forEach\<close> appends one element per entry of \<open>options\<close>.
\<close>

record HTMLOptionElement =
  option_value :: string
  option_textContent :: string

record TimeRangeSelector =
  select :: "HTMLOptionElement list"

definition createTimeRangeSelector :: "TimeRangeSelector" where
  "createTimeRangeSelector =
     \<lparr>select = foldl (\<lambda>children opt.
          children @ [\<lparr>option_value = opt_value opt, option_textContent = opt_label opt\<rparr>])
        [] options\<rparr>"

section \<open>Time range filter\<close>

text \<open>
  \<^verbatim>\<open>ranges\<close> is an object literal with four own properties. The products are
  written as in the source.
\<close>

definition ranges :: "(string \<times> int) list" where
  "ranges =
     [(''1h'', 60 * 60 * 1000),
      (''6h'', 6 * 60 * 60 * 1000),
      (''24h'', 24 * 60 * 60 * 1000),
      (''7d'', 7 * 24 * 60 * 60 * 1000)]"

text \<open>
  A property read \<^verbatim>\<open>ranges[timeRange]\<close> on an object literal first looks at the own
  properties and then follows the prototype chain to \<^verbatim>\<open>Object.prototype\<close>. The names
  below are the properties of \<^verbatim>\<open>Object.prototype\<close> in ECMAScript (with the
  browser annex); each of them holds a function, or, for \<^verbatim>\<open>__proto__\<close>, an object.
\<close>

definition Object_prototype :: "string list" where
  "Object_prototype =
     [''constructor'', ''hasOwnProperty'', ''isPrototypeOf'', ''propertyIsEnumerable'',
      ''toLocaleString'', ''toString'', ''valueOf'', ''__proto__'',
      ''__defineGetter__'', ''__defineSetter__'', ''__lookupGetter__'', ''__lookupSetter__'']"

text \<open>The values a read of \<^verbatim>\<open>ranges[timeRange]\<close> can produce.\<close>

datatype jsval =
    Undefined
  | Number int
  | Inherited \<comment> \<open>a function or object found on \<^verbatim>\<open>Object.prototype\<close>\<close>

definition ranges_get :: "string \<Rightarrow> jsval" where
  "ranges_get timeRange =
     (case map_of ranges timeRange of
        Some d \<Rightarrow> Number d
      | None \<Rightarrow> if timeRange \<in> set Object_prototype then Inherited else Undefined)"

text \<open>\<^verbatim>\<open>a || b\<close>: \<open>a\<close> when it is truthy. \<^verbatim>\<open>undefined\<close> and \<open>0\<close> are falsy,
  functions and objects are truthy.\<close>

fun truthy :: "jsval \<Rightarrow> bool" where
  "truthy Undefined = False"
| "truthy (Number n) = (n \<noteq> 0)"
| "truthy Inherited = True"

definition js_or :: "jsval \<Rightarrow> jsval \<Rightarrow> jsval" where
  "js_or a b = (if truthy a then a else b)"

text \<open>
  \<^verbatim>\<open>now - v\<close> for a number \<open>now\<close>. The right operand is converted to a number first;
  \<^verbatim>\<open>undefined\<close>, a function and a plain object all convert to \<^verbatim>\<open>NaN\<close>, and so
  does the difference. \<open>None\<close> stands for \<^verbatim>\<open>NaN\<close>.
\<close>

fun js_minus :: "int \<Rightarrow> jsval \<Rightarrow> int option" where
  "js_minus now (Number d) = Some (now - d)"
| "js_minus now Undefined = None"
| "js_minus now Inherited = None"

text \<open>\<^verbatim>\<open>x > c\<close>: every comparison with \<^verbatim>\<open>NaN\<close> is false.\<close>

fun js_gt :: "int \<Rightarrow> int option \<Rightarrow> bool" where
  "js_gt x (Some c) = (x > c)"
| "js_gt x None = False"

text \<open>\<^verbatim>\<open>const cutoff = now - (ranges[timeRange as keyof typeof ranges] || 0)\<close>\<close>

definition cutoff :: "int \<Rightarrow> string \<Rightarrow> int option" where
  "cutoff now timeRange = js_minus now (js_or (ranges_get timeRange) (Number 0))"

text \<open>
  The function on values. \<^verbatim>\<open>Date.now()\<close> is the parameter \<open>now\<close>; the history is a
  list of workflow profiles, of which only \<open>startTime\<close> is read.
\<close>

definition filterHistoryByTimeRange ::
  "int \<Rightarrow> WorkflowProfile list \<Rightarrow> string \<Rightarrow> WorkflowProfile list" where
  "filterHistoryByTimeRange now history timeRange =
     (if timeRange = ''all'' then history
      else filter (\<lambda>item. js_gt (startTime item) (cutoff now timeRange)) history)"

text \<open>
  The function on references. Arrays live in a store, an address is an index into it.
  For \<^verbatim>\<open>'all'\<close> the argument itself is returned; otherwise \<^verbatim>\<open>Array.prototype.filter\<close>
  allocates a fresh array for the result. A dangling address reads as the empty array.
\<close>

type_synonym addr = nat
type_synonym store = "WorkflowProfile list list"

definition deref :: "store \<Rightarrow> addr \<Rightarrow> WorkflowProfile list" where
  "deref s a = (if a < length s then s ! a else [])"

definition alloc :: "store \<Rightarrow> WorkflowProfile list \<Rightarrow> addr \<times> store" where
  "alloc s xs = (length s, s @ [xs])"

definition filterHistoryByTimeRange_ref ::
  "int \<Rightarrow> store \<Rightarrow> addr \<Rightarrow> string \<Rightarrow> addr \<times> store" where
  "filterHistoryByTimeRange_ref now s history timeRange =
     (if timeRange = ''all'' then (history, s)
      else alloc s (filter (\<lambda>item. js_gt (startTime item) (cutoff now timeRange))
                      (deref s history)))"

section \<open>Sample ingest and workflow aggregator\<close>

text \<open>
  Modelled from the spec: the ingest operations and the workflow aggregator (spec 4.1,
  4.2, 6, 7) are not among the TypeScript sources, which only declare the shapes of
  \<open>NodeProfile\<close> and \<open>WorkflowProfile\<close>. An event carries, in this order, the
  \<open>promptId\<close>, the \<open>nodeId\<close> and then: for a start the \<open>nodeType\<close>, the timestamp,
  \<open>vramBefore\<close> and \<open>ramBefore\<close>; for an end the timestamp, \<open>vramAfter\<close>, \<open>ramAfter\<close>
  and the optional error; for a cache resolution the outcome.
\<close>

datatype event =
    NodeStart string string string int nat nat
  | NodeEnd string string int nat nat "string option"
  | CacheResolved string string bool

text \<open>
  Modelled from the spec: the error taxonomy of the ingest path (spec 7), which the
  sources do not declare.
\<close>

datatype ingest_error = DanglingNodeError | UnknownWorkflowError | IllegalStateError

text \<open>
  Modelled from the spec: a workflow profile is created on the first start event that
  carries a new \<open>promptId\<close>, with empty node table, zero peaks and zero counters.
\<close>

definition new_profile :: "string \<Rightarrow> int \<Rightarrow> WorkflowProfile" where
  "new_profile p t =
     \<lparr>promptId = p, startTime = t, endTime = None, nodes = [], executionOrder = [],
      totalVramPeak = 0, totalRamPeak = 0, cacheHits = 0, cacheMisses = 0\<rparr>"

text \<open>
  Modelled from the spec: a new open node profile. It has no \<open>endTime\<close> and no cache
  outcome; the after-fields hold 0 until the end event supplies them.
\<close>

definition open_node :: "string \<Rightarrow> int \<Rightarrow> nat \<Rightarrow> nat \<Rightarrow> NodeProfile" where
  "open_node ty t vb rb =
     \<lparr>nodeType = ty, NodeProfile.startTime = t, NodeProfile.endTime = None,
      vramBefore = vb, vramAfter = 0, ramBefore = rb, ramAfter = 0,
      cacheHit = None, error = None\<rparr>"

text \<open>
  Modelled from the spec: the node-level update of the aggregator (4.2). It stores the
  node under its id, in place when the id is present and at the end otherwise, and
  recomputes \<open>totalVramPeak = max(current, vramAfter)\<close>, likewise for RAM.
\<close>

definition put_node :: "string \<Rightarrow> NodeProfile \<Rightarrow> WorkflowProfile \<Rightarrow> WorkflowProfile" where
  "put_node n np wp =
     wp\<lparr>nodes := AList.update n np (nodes wp),
        totalVramPeak := max (totalVramPeak wp) (vramAfter np),
        totalRamPeak := max (totalRamPeak wp) (ramAfter np)\<rparr>"

text \<open>
  Modelled from the spec: a start inserts a new open node profile and appends the id to
  \<open>executionOrder\<close>. Without sequence numbers a repeated start is accepted as it is.
\<close>

definition start_node ::
  "string \<Rightarrow> string \<Rightarrow> int \<Rightarrow> nat \<Rightarrow> nat \<Rightarrow> WorkflowProfile \<Rightarrow> WorkflowProfile" where
  "start_node n ty t vb rb wp =
     put_node n (open_node ty t vb rb) (wp\<lparr>executionOrder := executionOrder wp @ [n]\<rparr>)"

text \<open>
  Modelled from the spec: an end closes the matching open node profile and fails with
  \<open>DanglingNodeError\<close> when no open profile exists for the id.
\<close>

definition end_node ::
  "string \<Rightarrow> int \<Rightarrow> nat \<Rightarrow> nat \<Rightarrow> string option \<Rightarrow> WorkflowProfile
     \<Rightarrow> ingest_error + WorkflowProfile" where
  "end_node n t va ra err wp =
     (case map_of (nodes wp) n of
        None \<Rightarrow> Inl DanglingNodeError
      | Some np \<Rightarrow>
          (case NodeProfile.endTime np of
             Some _ \<Rightarrow> Inl DanglingNodeError
           | None \<Rightarrow>
               Inr (put_node n
                      (np\<lparr>NodeProfile.endTime := Some t, vramAfter := va, ramAfter := ra,
                          error := err\<rparr>)
                      wp)))"

text \<open>
  Modelled from the spec: a cache resolution sets \<open>cacheHit\<close> once and increments
  \<open>cacheHits\<close> or \<open>cacheMisses\<close>; a second resolution is an \<open>IllegalStateError\<close>, a
  resolution for a node that never started a \<open>DanglingNodeError\<close>.
\<close>

definition resolve_cache ::
  "string \<Rightarrow> bool \<Rightarrow> WorkflowProfile \<Rightarrow> ingest_error + WorkflowProfile" where
  "resolve_cache n hit wp =
     (case map_of (nodes wp) n of
        None \<Rightarrow> Inl DanglingNodeError
      | Some np \<Rightarrow>
          (case cacheHit np of
             Some _ \<Rightarrow> Inl IllegalStateError
           | None \<Rightarrow>
               Inr ((put_node n (np\<lparr>cacheHit := Some hit\<rparr>) wp)
                      \<lparr>cacheHits := cacheHits wp + (if hit then 1 else 0),
                       cacheMisses := cacheMisses wp + (if hit then 0 else 1)\<rparr>)))"

text \<open>
  Modelled from the spec: the aggregator owns the in-flight profiles keyed by
  \<open>promptId\<close>, and the errors it has logged.
\<close>

record Aggregator =
  in_flight :: "(string \<times> WorkflowProfile) list"
  logged :: "ingest_error list"

text \<open>Modelled from the spec: the aggregator before any event, with nothing in flight.\<close>

definition empty_aggregator :: Aggregator where
  "empty_aggregator = \<lparr>in_flight = [], logged = []\<rparr>"

text \<open>
  Modelled from the spec: \<open>onNodeStart\<close> (4.1) looks up the in-flight profile of the
  \<open>promptId\<close>, creating one if absent, and inserts a new open node profile.
\<close>

definition onNodeStart ::
  "string \<Rightarrow> string \<Rightarrow> string \<Rightarrow> int \<Rightarrow> nat \<Rightarrow> nat \<Rightarrow> Aggregator
     \<Rightarrow> ingest_error + Aggregator" where
  "onNodeStart p n ty t vb rb ag =
     (let wp = (case map_of (in_flight ag) p of None \<Rightarrow> new_profile p t | Some w \<Rightarrow> w)
      in Inr (ag\<lparr>in_flight := AList.update p (start_node n ty t vb rb wp) (in_flight ag)\<rparr>))"

text \<open>
  Modelled from the spec: \<open>onNodeEnd\<close> (4.1) closes the matching node profile; an update
  for a \<open>promptId\<close> that is not in flight is an \<open>UnknownWorkflowError\<close> (7).
\<close>

definition onNodeEnd ::
  "string \<Rightarrow> string \<Rightarrow> int \<Rightarrow> nat \<Rightarrow> nat \<Rightarrow> string option \<Rightarrow> Aggregator
     \<Rightarrow> ingest_error + Aggregator" where
  "onNodeEnd p n t va ra err ag =
     (case map_of (in_flight ag) p of
        None \<Rightarrow> Inl UnknownWorkflowError
      | Some wp \<Rightarrow>
          (case end_node n t va ra err wp of
             Inl e \<Rightarrow> Inl e
           | Inr wp' \<Rightarrow> Inr (ag\<lparr>in_flight := AList.update p wp' (in_flight ag)\<rparr>)))"

text \<open>
  Modelled from the spec: \<open>onCacheResolved\<close> (4.1) sets the cache outcome of a node of
  an in-flight run.
\<close>

definition onCacheResolved ::
  "string \<Rightarrow> string \<Rightarrow> bool \<Rightarrow> Aggregator \<Rightarrow> ingest_error + Aggregator" where
  "onCacheResolved p n hit ag =
     (case map_of (in_flight ag) p of
        None \<Rightarrow> Inl UnknownWorkflowError
      | Some wp \<Rightarrow>
          (case resolve_cache n hit wp of
             Inl e \<Rightarrow> Inl e
           | Inr wp' \<Rightarrow> Inr (ag\<lparr>in_flight := AList.update p wp' (in_flight ag)\<rparr>)))"

text \<open>
  Modelled from the spec: the event stream of the ingest interface (6) is routed to the
  operation of the event's kind.
\<close>

fun dispatch :: "event \<Rightarrow> Aggregator \<Rightarrow> ingest_error + Aggregator" where
  "dispatch (NodeStart p n ty t vb rb) ag = onNodeStart p n ty t vb rb ag"
| "dispatch (NodeEnd p n t va ra err) ag = onNodeEnd p n t va ra err ag"
| "dispatch (CacheResolved p n hit) ag = onCacheResolved p n hit ag"

text \<open>
  Modelled from the spec: every per-event error is local and recovered; the event is
  logged and dropped, the state stays as it was.
\<close>

definition ingest :: "event \<Rightarrow> Aggregator \<Rightarrow> Aggregator" where
  "ingest ev ag =
     (case dispatch ev ag of
        Inl e \<Rightarrow> ag\<lparr>logged := logged ag @ [e]\<rparr>
      | Inr ag' \<Rightarrow> ag')"

text \<open>
  Modelled from the spec: \<open>finalize\<close> sets \<open>endTime\<close>, moves the profile out of the
  in-flight set and returns it; an unknown \<open>promptId\<close> is an \<open>UnknownWorkflowError\<close>.
\<close>

definition finalize ::
  "string \<Rightarrow> int \<Rightarrow> Aggregator \<Rightarrow> ingest_error + WorkflowProfile \<times> Aggregator" where
  "finalize p t ag =
     (case map_of (in_flight ag) p of
        None \<Rightarrow> Inl UnknownWorkflowError
      | Some wp \<Rightarrow> Inr (wp\<lparr>endTime := Some t\<rparr>, ag\<lparr>in_flight := AList.delete p (in_flight ag)\<rparr>))"

subsection \<open>Notions used to state the aggregator's properties\<close>

text \<open>The number of nodes of a profile whose cache outcome has been resolved.\<close>

definition resolved_nodes :: "WorkflowProfile \<Rightarrow> nat" where
  "resolved_nodes wp = length (filter (\<lambda>(n, np). cacheHit np \<noteq> None) (nodes wp))"

text \<open>
  The part of well-formed pairing that the cache counters depend on: a start event
  never names a node that its run already holds (a \<open>nodeId\<close> is unique within a run).
  The other ill-paired events, an end or a resolution without a start and a second
  resolution, are dropped by the error handling above.
\<close>

fun fresh_start :: "Aggregator \<Rightarrow> event \<Rightarrow> bool" where
  "fresh_start ag (NodeStart p n ty t vb rb) =
     (case map_of (in_flight ag) p of None \<Rightarrow> True | Some wp \<Rightarrow> map_of (nodes wp) n = None)"
| "fresh_start ag (NodeEnd p n t va ra err) = True"
| "fresh_start ag (CacheResolved p n hit) = True"

fun well_paired :: "Aggregator \<Rightarrow> event list \<Rightarrow> bool" where
  "well_paired ag [] = True"
| "well_paired ag (ev # evs) = (fresh_start ag ev \<and> well_paired (ingest ev ag) evs)"

text \<open>
  The \<open>(vramAfter, ramAfter)\<close> readings observed in the run \<open>p\<close>: those of the end
  events for \<open>p\<close> that closed a node, in order of arrival. They are the values that the
  after-fields of the run's nodes have held, apart from the 0 of a node that is open.
\<close>

fun reading :: "string \<Rightarrow> Aggregator \<Rightarrow> event \<Rightarrow> (nat \<times> nat) list" where
  "reading p ag (NodeEnd p' n t va ra err) =
     (case onNodeEnd p' n t va ra err ag of
        Inl e \<Rightarrow> []
      | Inr ag' \<Rightarrow> if p' = p then [(va, ra)] else [])"
| "reading p ag (NodeStart p' n ty t vb rb) = []"
| "reading p ag (CacheResolved p' n hit) = []"

fun observed :: "string \<Rightarrow> Aggregator \<Rightarrow> event list \<Rightarrow> (nat \<times> nat) list" where
  "observed p ag [] = []"
| "observed p ag (ev # evs) = reading p ag ev @ observed p (ingest ev ag) evs"

text \<open>
  The scenario of the spec for the run \<^verbatim>\<open>p1\<close>: a start of node \<^verbatim>\<open>n1\<close> at time 0
  with 1000 bytes of VRAM in use, its end at time 100 with 2000 bytes, and a cache hit.
  \<open>scenario_started\<close> and \<open>scenario_profile\<close> are the profile after the first event
  and after all three.
\<close>

definition scenario :: "event list" where
  "scenario =
     [NodeStart ''p1'' ''n1'' ''KSampler'' 0 1000 0,
      NodeEnd ''p1'' ''n1'' 100 2000 0 None,
      CacheResolved ''p1'' ''n1'' True]"

definition scenario_started :: WorkflowProfile where
  "scenario_started =
     \<lparr>promptId = ''p1'', startTime = 0, endTime = None,
      nodes = [(''n1'', \<lparr>nodeType = ''KSampler'', NodeProfile.startTime = 0,
                        NodeProfile.endTime = None, vramBefore = 1000, vramAfter = 0,
                        ramBefore = 0, ramAfter = 0, cacheHit = None, error = None\<rparr>)],
      executionOrder = [''n1''], totalVramPeak = 0, totalRamPeak = 0,
      cacheHits = 0, cacheMisses = 0\<rparr>"

definition scenario_profile :: WorkflowProfile where
  "scenario_profile =
     \<lparr>promptId = ''p1'', startTime = 0, endTime = None,
      nodes = [(''n1'', \<lparr>nodeType = ''KSampler'', NodeProfile.startTime = 0,
                        NodeProfile.endTime = Some 100, vramBefore = 1000, vramAfter = 2000,
                        ramBefore = 0, ramAfter = 0, cacheHit = Some True, error = None\<rparr>)],
      executionOrder = [''n1''], totalVramPeak = 2000, totalRamPeak = 0,
      cacheHits = 1, cacheMisses = 0\<rparr>"

text \<open>Invariants that the proofs carry along the event stream.\<close>

definition counted :: "WorkflowProfile \<Rightarrow> bool" where
  "counted wp \<longleftrightarrow> cacheHits wp + cacheMisses wp = resolved_nodes wp"

definition all_counted :: "Aggregator \<Rightarrow> bool" where
  "all_counted ag \<longleftrightarrow> (\<forall>p wp. map_of (in_flight ag) p = Some wp \<longrightarrow> counted wp)"

definition covered :: "WorkflowProfile \<Rightarrow> bool" where
  "covered wp \<longleftrightarrow>
     (\<forall>n np. map_of (nodes wp) n = Some np \<longrightarrow>
        vramAfter np \<le> totalVramPeak wp \<and> ramAfter np \<le> totalRamPeak wp)"

definition all_covered :: "Aggregator \<Rightarrow> bool" where
  "all_covered ag \<longleftrightarrow> (\<forall>p wp. map_of (in_flight ag) p = Some wp \<longrightarrow> covered wp)"

text \<open>The two peaks of the run \<open>p\<close>, which are 0 while the run has no profile.\<close>

definition peaks_of :: "Aggregator \<Rightarrow> string \<Rightarrow> nat \<times> nat" where
  "peaks_of ag p =
     (case map_of (in_flight ag) p of
        None \<Rightarrow> (0, 0)
      | Some wp \<Rightarrow> (totalVramPeak wp, totalRamPeak wp))"

section \<open>Running-average tracker\<close>

text \<open>
  The accumulators, with the fields that \<^verbatim>\<open>ProfilerStats\<close> declares for the entries of
  \<^verbatim>\<open>node_averages\<close> and for \<^verbatim>\<open>workflow_averages\<close>. All fields but \<open>count\<close>
  are running sums.
\<close>

record node_accumulator =
  total_time :: int
  vram_usage :: int
  ram_usage :: int
  count :: nat
  cache_hits :: nat

record workflow_accumulator =
  total_time :: int
  vram_peak :: nat
  ram_peak :: nat
  count :: nat

text \<open>
  Modelled from the spec: the answers of the query interface (6),
  \<open>{avg_time, avg_vram, avg_ram, count, cache_hit_ratio}\<close> per node type and
  \<open>{avg_time, avg_vram_peak, avg_ram_peak, count}\<close> for workflows. The sources do not
  declare them.
\<close>

record node_average =
  avg_time :: real
  avg_vram :: real
  avg_ram :: real
  count :: nat
  cache_hit_ratio :: real

record workflow_average =
  avg_time :: real
  avg_vram_peak :: real
  avg_ram_peak :: real
  count :: nat

text \<open>
  Modelled from the spec: the fold of one node profile into the accumulator of its node
  type (4.3), which is not among the sources. A node without \<open>endTime\<close> adds no time.
\<close>

definition fold_node :: "NodeProfile \<Rightarrow> node_accumulator \<Rightarrow> node_accumulator" where
  "fold_node np acc =
     acc\<lparr>node_accumulator.total_time :=
           node_accumulator.total_time acc
             + (case NodeProfile.endTime np of
                  None \<Rightarrow> 0
                | Some e \<Rightarrow> e - NodeProfile.startTime np),
         vram_usage := vram_usage acc + (int (vramAfter np) - int (vramBefore np)),
         ram_usage := ram_usage acc + (int (ramAfter np) - int (ramBefore np)),
         node_accumulator.count := node_accumulator.count acc + 1,
         cache_hits := cache_hits acc + (if cacheHit np = Some True then 1 else 0)\<rparr>"

text \<open>
  Modelled from the spec: division as the host language has it, a fault when the divisor
  is zero.
\<close>

datatype fault = DivisionByZero

definition divide_checked :: "real \<Rightarrow> real \<Rightarrow> fault + real" where
  "divide_checked a b = (if b = 0 then Inl DivisionByZero else Inr (a / b))"

text \<open>
  Modelled from the spec: an average is derived on query as \<open>sum / count\<close>, with the
  guard \<open>count == 0\<close> reporting zero (4.3).
\<close>

definition average :: "real \<Rightarrow> nat \<Rightarrow> fault + real" where
  "average s n = (if n = 0 then Inr 0 else divide_checked s (real n))"

text \<open>Sequencing of computations that may fault.\<close>

definition and_then :: "fault + 'a \<Rightarrow> ('a \<Rightarrow> fault + 'b) \<Rightarrow> fault + 'b" where
  "and_then r f = (case r of Inl e \<Rightarrow> Inl e | Inr x \<Rightarrow> f x)"

text \<open>
  Modelled from the spec: the averages of one node type, each derived from its running
  sum and the sample count; the cache hit ratio is \<open>cache_hits / count\<close>.
\<close>

definition node_average_of :: "node_accumulator \<Rightarrow> fault + node_average" where
  "node_average_of acc =
     and_then (average (real_of_int (node_accumulator.total_time acc))
                 (node_accumulator.count acc)) (\<lambda>t.
     and_then (average (real_of_int (vram_usage acc)) (node_accumulator.count acc)) (\<lambda>v.
     and_then (average (real_of_int (ram_usage acc)) (node_accumulator.count acc)) (\<lambda>r.
     and_then (average (real (cache_hits acc)) (node_accumulator.count acc)) (\<lambda>h.
       Inr \<lparr>node_average.avg_time = t, avg_vram = v, avg_ram = r,
            node_average.count = node_accumulator.count acc, cache_hit_ratio = h\<rparr>))))"

text \<open>
  Modelled from the spec: \<open>getNodeAverages\<close> (6) answers with the averages of every node
  type; it is not among the sources.
\<close>

fun getNodeAverages ::
  "(string \<times> node_accumulator) list \<Rightarrow> fault + (string \<times> node_average) list" where
  "getNodeAverages [] = Inr []"
| "getNodeAverages ((ty, acc) # rest) =
     and_then (node_average_of acc) (\<lambda>a.
     and_then (getNodeAverages rest) (\<lambda>as. Inr ((ty, a) # as)))"

text \<open>
  Modelled from the spec: \<open>getWorkflowAverages\<close> (6) answers with the averages of the
  workflow-level accumulator; it is not among the sources.
\<close>

definition getWorkflowAverages :: "workflow_accumulator \<Rightarrow> fault + workflow_average" where
  "getWorkflowAverages w =
     and_then (average (real_of_int (workflow_accumulator.total_time w))
                 (workflow_accumulator.count w)) (\<lambda>t.
     and_then (average (real (vram_peak w)) (workflow_accumulator.count w)) (\<lambda>v.
     and_then (average (real (ram_peak w)) (workflow_accumulator.count w)) (\<lambda>r.
       Inr \<lparr>workflow_average.avg_time = t, avg_vram_peak = v, avg_ram_peak = r,
            workflow_average.count = workflow_accumulator.count w\<rparr>)))"

section \<open>History store\<close>

text \<open>\<^verbatim>\<open>ProfilerSettings\<close> as the module declarations have it; the counts are naturals.\<close>

record ProfilerSettings =
  showMemoryChart :: bool
  showTimeChart :: bool
  showCacheStats :: bool
  refreshRate :: nat
  maxDataPoints :: nat
  chartHeight :: nat
  chartWidth :: nat

text \<open>
  Modelled from the spec: an entry of the history store, a finalized profile with its
  insertion timestamp (3).
\<close>

record HistoryEntry =
  profile :: WorkflowProfile
  insertedAt :: int

text \<open>
  Modelled from the spec: the history store (4.4), which is not among the sources. The
  entries are kept oldest first; \<open>offered\<close> lists what has been handed to the archiving
  collaborator.
\<close>

record HistoryStore =
  entries :: "HistoryEntry list"
  archiving :: bool
  offered :: "HistoryEntry list"

text \<open>Modelled from the spec: the store before the first append.\<close>

definition empty_store :: "bool \<Rightarrow> HistoryStore" where
  "empty_store a = \<lparr>entries = [], archiving = a, offered = []\<rparr>"

text \<open>
  Modelled from the spec: \<open>append\<close> (4.4), the only mutator. The new entry goes last;
  when the count exceeds \<open>maxDataPoints\<close> the oldest entries are evicted, after they
  have been offered to the archiving collaborator if archiving is enabled. The evicted
  entries are returned with the new store.
\<close>

definition history_append ::
  "ProfilerSettings \<Rightarrow> int \<Rightarrow> WorkflowProfile \<Rightarrow> HistoryStore
     \<Rightarrow> HistoryEntry list \<times> HistoryStore" where
  "history_append cfg now wp hs =
     (let es = entries hs @ [\<lparr>profile = wp, insertedAt = now\<rparr>];
          k = length es - maxDataPoints cfg;
          evicted = take k es
      in (evicted,
          hs\<lparr>entries := drop k es,
             offered := (if archiving hs then offered hs @ evicted else offered hs)\<rparr>))"

text \<open>A sequence of appends, each with the time of its insertion.\<close>

definition append_all ::
  "ProfilerSettings \<Rightarrow> (int \<times> WorkflowProfile) list \<Rightarrow> HistoryStore \<Rightarrow> HistoryStore" where
  "append_all cfg xs hs = fold (\<lambda>(now, wp) hs. snd (history_append cfg now wp hs)) xs hs"

section \<open>Properties of the time range filter\<close>

lemma ranges_get_own:
  "ranges_get ''1h'' = Number 3600000"
  "ranges_get ''6h'' = Number 21600000"
  "ranges_get ''24h'' = Number 86400000"
  "ranges_get ''7d'' = Number 604800000"
  by (simp_all add: ranges_get_def ranges_def)

lemma cutoff_own:
  "cutoff now ''1h'' = Some (now - 3600000)"
  "cutoff now ''6h'' = Some (now - 21600000)"
  "cutoff now ''24h'' = Some (now - 86400000)"
  "cutoff now ''7d'' = Some (now - 604800000)"
  by (simp_all add: cutoff_def ranges_get_own js_or_def)

lemma ranges_get_unknown:
  assumes "timeRange \<notin> {''1h'', ''6h'', ''24h'', ''7d''}"
    and "timeRange \<notin> set Object_prototype"
  shows "ranges_get timeRange = Undefined"
  using assms by (simp add: ranges_get_def ranges_def)

lemma cutoff_unknown:
  assumes "timeRange \<notin> {''1h'', ''6h'', ''24h'', ''7d''}"
    and "timeRange \<notin> set Object_prototype"
  shows "cutoff now timeRange = Some now"
  by (simp add: cutoff_def ranges_get_unknown [OF assms] js_or_def)

lemma ranges_get_inherited:
  assumes "timeRange \<in> set Object_prototype"
  shows "ranges_get timeRange = Inherited"
  using assms by (auto simp add: ranges_get_def ranges_def Object_prototype_def)

lemma cutoff_inherited:
  assumes "timeRange \<in> set Object_prototype"
  shows "cutoff now timeRange = None"
  by (simp add: cutoff_def ranges_get_inherited [OF assms] js_or_def)

lemma filter_ref_value:
  "deref (snd (filterHistoryByTimeRange_ref now s history timeRange))
         (fst (filterHistoryByTimeRange_ref now s history timeRange))
   = filterHistoryByTimeRange now (deref s history) timeRange"
  by (simp add: filterHistoryByTimeRange_ref_def filterHistoryByTimeRange_def alloc_def deref_def)

lemma filter_recognized:
  assumes "timeRange \<noteq> ''all''" and "cutoff now timeRange = Some c"
  shows "filterHistoryByTimeRange now history timeRange = filter (\<lambda>item. startTime item > c) history"
  using assms by (simp add: filterHistoryByTimeRange_def)

lemma filter_inherited:
  assumes "timeRange \<in> set Object_prototype"
  shows "filterHistoryByTimeRange now history timeRange = []"
proof -
  have "timeRange \<noteq> ''all''"
    using assms by (auto simp add: Object_prototype_def)
  then show ?thesis
    by (simp add: filterHistoryByTimeRange_def cutoff_inherited [OF assms])
qed

lemma filter_is_subseq: "subseq (filterHistoryByTimeRange now history timeRange) history"
  by (simp add: filterHistoryByTimeRange_def)

text \<open>
  C1. For each of the four tokens with a duration, the filter takes the cutoff
  \<open>now - duration\<close> with the durations 3,600,000 ms, 21,600,000 ms, 86,400,000 ms and
  604,800,000 ms, and returns the entries whose \<open>startTime\<close> is greater than the cutoff, in
  their original order. With \<^verbatim>\<open>'1h'\<close> and \<open>now = 10,000,000\<close> an entry that started
  30 minutes before \<open>now\<close> is kept and one that started 2 hours before is dropped.
\<close>

theorem filterHistoryByTimeRange_durations:
  "filterHistoryByTimeRange now history ''1h''
     = filter (\<lambda>item. startTime item > now - 3600000) history
   \<and> filterHistoryByTimeRange now history ''6h''
     = filter (\<lambda>item. startTime item > now - 21600000) history
   \<and> filterHistoryByTimeRange now history ''24h''
     = filter (\<lambda>item. startTime item > now - 86400000) history
   \<and> filterHistoryByTimeRange now history ''7d''
     = filter (\<lambda>item. startTime item > now - 604800000) history
   \<and> filterHistoryByTimeRange 10000000
        [a\<lparr>startTime := 10000000 - 30 * 60 * 1000\<rparr>,
         b\<lparr>startTime := 10000000 - 2 * 60 * 60 * 1000\<rparr>] ''1h''
     = [a\<lparr>startTime := 10000000 - 30 * 60 * 1000\<rparr>]"
  by (simp add: filter_recognized cutoff_own)

text \<open>
  C2, as stated, fails: with the token \<^verbatim>\<open>'3d'\<close> and an entry whose \<open>startTime\<close> lies
  after \<open>now\<close> the result is not empty.
\<close>

theorem unrecognized_token_not_empty:
  "''3d'' \<notin> {''1h'', ''6h'', ''24h'', ''7d'', ''all''}
   \<and> filterHistoryByTimeRange 10000000 [profile_at 10000001] ''3d'' \<noteq> []"
  by (simp add: filterHistoryByTimeRange_def cutoff_unknown Object_prototype_def profile_at_def)

text \<open>
  C2, amended. For a token outside the vocabulary the filter returns a list (it has no
  failing branch), and the list is empty whenever no entry has a \<open>startTime\<close> after \<open>now\<close>.
  When the token is moreover not the name of a property inherited from
  \<^verbatim>\<open>Object.prototype\<close>, as \<^verbatim>\<open>'3d'\<close> is not, it is treated as duration 0: the
  cutoff is \<open>now\<close>.
\<close>

theorem unrecognized_token_fail_safe:
  assumes "timeRange \<notin> {''1h'', ''6h'', ''24h'', ''7d'', ''all''}"
  shows "(timeRange \<notin> set Object_prototype \<longrightarrow> cutoff now timeRange = Some now)
         \<and> ((\<forall>item \<in> set history. startTime item \<le> now)
              \<longrightarrow> filterHistoryByTimeRange now history timeRange = [])"
proof (cases "timeRange \<in> set Object_prototype")
  case True
  then show ?thesis by (simp add: filter_inherited)
next
  case False
  with assms have c: "cutoff now timeRange = Some now"
    by (simp add: cutoff_unknown)
  from assms have "timeRange \<noteq> ''all''" by simp
  then have "filterHistoryByTimeRange now history timeRange
               = filter (\<lambda>item. startTime item > now) history"
    using c by (rule filter_recognized)
  with c show ?thesis by (auto simp add: filter_empty_conv)
qed

theorem unrecognized_token_fail_safe_witness:
  "''3d'' \<notin> {''1h'', ''6h'', ''24h'', ''7d'', ''all''}
   \<and> ''3d'' \<notin> set Object_prototype
   \<and> startTime (profile_at 9000000) \<le> 10000000
   \<and> startTime (profile_at 10000000) \<le> 10000000
   \<and> cutoff 10000000 ''3d'' = Some 10000000
   \<and> filterHistoryByTimeRange 10000000 [profile_at 9000000, profile_at 10000000] ''3d'' = []"
proof -
  have v: "''3d'' \<notin> {''1h'', ''6h'', ''24h'', ''7d'', ''all''}" by simp
  have p: "''3d'' \<notin> set Object_prototype" by (simp add: Object_prototype_def)
  have h: "\<forall>item \<in> set [profile_at 9000000, profile_at 10000000]. startTime item \<le> 10000000"
    by (simp add: profile_at_def)
  show ?thesis
    using v p h
      unrecognized_token_fail_safe [OF v, of 10000000 "[profile_at 9000000, profile_at 10000000]"]
    by simp
qed

text \<open>
  C3. With the token \<^verbatim>\<open>'all'\<close> the filter returns its input: the same elements in the
  same order and, on references, the very same array in an unchanged store.
\<close>

theorem filterHistoryByTimeRange_all:
  "filterHistoryByTimeRange now history ''all'' = history
   \<and> filterHistoryByTimeRange_ref now s r ''all'' = (r, s)"
  by (simp add: filterHistoryByTimeRange_def filterHistoryByTimeRange_ref_def)

lemma keeps_past_entry_own:
  assumes "t \<in> {''1h'', ''6h'', ''24h'', ''7d'', ''all''}"
  shows "profile_at 0 \<in> set (filterHistoryByTimeRange 0 [profile_at 0] t)
         \<and> startTime (profile_at 0) \<le> 0"
  using assms
  by (auto simp add: filterHistoryByTimeRange_def cutoff_own profile_at_def)

lemma only_future_entries_otherwise:
  assumes "t \<notin> {''1h'', ''6h'', ''24h'', ''7d'', ''all''}"
    and "item \<in> set (filterHistoryByTimeRange now history t)"
  shows "startTime item > now"
proof (cases "t \<in> set Object_prototype")
  case True
  with assms(2) show ?thesis by (simp add: filter_inherited)
next
  case False
  with assms(1) have c: "cutoff now t = Some now" by (simp add: cutoff_unknown)
  from assms(1) have "t \<noteq> ''all''" by simp
  from filter_recognized [OF this c] assms(2) show ?thesis by simp
qed

lemma drops_old_entry_unless_all:
  assumes "t \<noteq> ''all''"
  shows "filterHistoryByTimeRange 0 [profile_at (- 604800000)] t = []"
proof -
  consider "t \<in> {''1h'', ''6h'', ''24h'', ''7d''}" | "t \<in> set Object_prototype"
    | "t \<notin> {''1h'', ''6h'', ''24h'', ''7d''}" "t \<notin> set Object_prototype"
    by blast
  then show ?thesis
  proof cases
    case 1
    then show ?thesis
      by (auto simp add: filterHistoryByTimeRange_def cutoff_own profile_at_def)
  next
    case 2
    then show ?thesis by (rule filter_inherited)
  next
    case 3
    then have "cutoff 0 t = Some 0" by (rule cutoff_unknown)
    from filter_recognized [OF assms this] show ?thesis by (simp add: profile_at_def)
  qed
qed

lemma identity_token:
  "(\<forall>now history. filterHistoryByTimeRange now history t = history) \<longleftrightarrow> t = ''all''"
proof
  assume a: "\<forall>now history. filterHistoryByTimeRange now history t = history"
  show "t = ''all''"
  proof (rule ccontr)
    assume "t \<noteq> ''all''"
    from drops_old_entry_unless_all [OF this] a show False by simp
  qed
next
  assume "t = ''all''"
  then show "\<forall>now history. filterHistoryByTimeRange now history t = history"
    by (simp add: filterHistoryByTimeRange_def)
qed

lemma window_token:
  "(\<exists>d. 0 < d \<and> (\<forall>now history. filterHistoryByTimeRange now history t
                       = filter (\<lambda>item. startTime item > now - d) history))
   \<longleftrightarrow> t \<in> {''1h'', ''6h'', ''24h'', ''7d''}"
proof
  assume "\<exists>d. 0 < d \<and> (\<forall>now history. filterHistoryByTimeRange now history t
                       = filter (\<lambda>item. startTime item > now - d) history)"
  then obtain d where d: "0 < d"
    and e: "\<And>now history. filterHistoryByTimeRange now history t
                = filter (\<lambda>item. startTime item > now - d) history"
    by blast
  show "t \<in> {''1h'', ''6h'', ''24h'', ''7d''}"
  proof (rule ccontr)
    assume n: "t \<notin> {''1h'', ''6h'', ''24h'', ''7d''}"
    show False
    proof (cases "t = ''all''")
      case True
      have "filterHistoryByTimeRange 0 [profile_at (- d)] t = [profile_at (- d)]"
        by (simp add: True filterHistoryByTimeRange_def)
      with e [of 0 "[profile_at (- d)]"] show False by (simp add: profile_at_def)
    next
      case False
      with n have "t \<notin> {''1h'', ''6h'', ''24h'', ''7d'', ''all''}" by simp
      then have "startTime item > 0"
        if "item \<in> set (filterHistoryByTimeRange 0 [profile_at 0] t)" for item
        using that by (rule only_future_entries_otherwise)
      from this [of "profile_at 0"] e [of 0 "[profile_at 0]"] d show False
        by (simp add: profile_at_def)
    qed
  qed
next
  assume "t \<in> {''1h'', ''6h'', ''24h'', ''7d''}"
  then consider "t = ''1h''" | "t = ''6h''" | "t = ''24h''" | "t = ''7d''" by auto
  then show "\<exists>d. 0 < d \<and> (\<forall>now history. filterHistoryByTimeRange now history t
                       = filter (\<lambda>item. startTime item > now - d) history)"
  proof cases
    case 1 then show ?thesis
      by (intro exI [of _ 3600000]) (simp add: filter_recognized cutoff_own)
  next
    case 2 then show ?thesis
      by (intro exI [of _ 21600000]) (simp add: filter_recognized cutoff_own)
  next
    case 3 then show ?thesis
      by (intro exI [of _ 86400000]) (simp add: filter_recognized cutoff_own)
  next
    case 4 then show ?thesis
      by (intro exI [of _ 604800000]) (simp add: filter_recognized cutoff_own)
  qed
qed

lemma lookback_token:
  "(\<exists>now history item.
      item \<in> set (filterHistoryByTimeRange now history t) \<and> startTime item \<le> now)
   \<longleftrightarrow> t \<in> {''1h'', ''6h'', ''24h'', ''7d'', ''all''}"
proof
  assume "\<exists>now history item.
      item \<in> set (filterHistoryByTimeRange now history t) \<and> startTime item \<le> now"
  then obtain now history item
    where i: "item \<in> set (filterHistoryByTimeRange now history t)" and l: "startTime item \<le> now"
    by blast
  show "t \<in> {''1h'', ''6h'', ''24h'', ''7d'', ''all''}"
  proof (rule ccontr)
    assume "t \<notin> {''1h'', ''6h'', ''24h'', ''7d'', ''all''}"
    from only_future_entries_otherwise [OF this i] l show False by simp
  qed
next
  assume "t \<in> {''1h'', ''6h'', ''24h'', ''7d'', ''all''}"
  from keeps_past_entry_own [OF this]
  show "\<exists>now history item.
      item \<in> set (filterHistoryByTimeRange now history t) \<and> startTime item \<le> now"
    by blast
qed

text \<open>
  C4. The selector offers exactly the values \<^verbatim>\<open>1h\<close>, \<^verbatim>\<open>6h\<close>, \<^verbatim>\<open>24h\<close>,
  \<^verbatim>\<open>7d\<close> and \<^verbatim>\<open>all\<close>, and these are the tokens that the filter recognizes as a
  range: they are exactly the tokens under which \<open>filterHistoryByTimeRange\<close> can return
  an entry that started at or before \<open>now\<close>. Of them \<^verbatim>\<open>all\<close> is the one token under
  which the filter is the identity, and the other four are the tokens under which it
  keeps the entries of a window \<open>startTime > now - d\<close> of positive length. Under every
  other token nothing from the past is returned.
\<close>

theorem range_token_vocabulary:
  "map option_value (select createTimeRangeSelector) = [''1h'', ''6h'', ''24h'', ''7d'', ''all'']
   \<and> {t. \<exists>now history item.
            item \<in> set (filterHistoryByTimeRange now history t) \<and> startTime item \<le> now}
       = {''1h'', ''6h'', ''24h'', ''7d'', ''all''}
   \<and> {t. \<forall>now history. filterHistoryByTimeRange now history t = history} = {''all''}
   \<and> {t. \<exists>d. 0 < d \<and> (\<forall>now history. filterHistoryByTimeRange now history t
                          = filter (\<lambda>item. startTime item > now - d) history)}
       = {''1h'', ''6h'', ''24h'', ''7d''}"
proof -
  have a: "map option_value (select createTimeRangeSelector)
             = [''1h'', ''6h'', ''24h'', ''7d'', ''all'']"
    by (simp add: createTimeRangeSelector_def options_def)
  have b: "{t. \<exists>now history item.
            item \<in> set (filterHistoryByTimeRange now history t) \<and> startTime item \<le> now}
       = {''1h'', ''6h'', ''24h'', ''7d'', ''all''}"
    unfolding lookback_token by (rule Collect_mem_eq)
  have c: "{t. \<forall>now history. filterHistoryByTimeRange now history t = history} = {''all''}"
    unfolding identity_token by simp
  have d: "{t. \<exists>d. 0 < d \<and> (\<forall>now history. filterHistoryByTimeRange now history t
                          = filter (\<lambda>item. startTime item > now - d) history)}
       = {''1h'', ''6h'', ''24h'', ''7d''}"
    unfolding window_token by (rule Collect_mem_eq)
  from a b c d show ?thesis by (intro conjI)
qed

text \<open>
  C9. The call leaves the array it was given as it was: after the call, the store holds
  at the argument's address the same elements in the same order; indeed every array that
  existed before the call is unchanged.
\<close>

theorem filterHistoryByTimeRange_frame:
  assumes "history < length s"
  shows "snd (filterHistoryByTimeRange_ref now s history timeRange) ! history = s ! history
         \<and> take (length s) (snd (filterHistoryByTimeRange_ref now s history timeRange)) = s"
  using assms by (simp add: filterHistoryByTimeRange_ref_def alloc_def nth_append)

theorem filterHistoryByTimeRange_frame_witness:
  "(0::nat) < length [[profile_at 1, profile_at 9999999]]
   \<and> filterHistoryByTimeRange_ref 10000000 [[profile_at 1, profile_at 9999999]] 0 ''1h''
       = (1, [[profile_at 1, profile_at 9999999], [profile_at 9999999]])
   \<and> snd (filterHistoryByTimeRange_ref 10000000 [[profile_at 1, profile_at 9999999]] 0 ''1h'') ! 0
       = [profile_at 1, profile_at 9999999]"
proof -
  have h: "(0::nat) < length [[profile_at 1, profile_at 9999999]]" by simp
  have r: "filterHistoryByTimeRange_ref 10000000 [[profile_at 1, profile_at 9999999]] 0 ''1h''
             = (1, [[profile_at 1, profile_at 9999999], [profile_at 9999999]])"
    by (simp add: filterHistoryByTimeRange_ref_def alloc_def deref_def cutoff_own profile_at_def)
  show ?thesis
    using h r filterHistoryByTimeRange_frame [OF h, of 10000000 "''1h''"] by simp
qed

text \<open>
  C10 at the token \<^verbatim>\<open>'constructor'\<close>, which is outside the vocabulary: the read
  \<^verbatim>\<open>ranges['constructor']\<close> finds the inherited function, which is truthy, so the
  fallback \<^verbatim>\<open>|| 0\<close> is not taken, the cutoff is \<^verbatim>\<open>NaN\<close> and no entry passes the
  comparison. The entry that starts after \<open>now\<close> is dropped.
\<close>

theorem inherited_name_drops_future_entry:
  "''constructor'' \<notin> {''1h'', ''6h'', ''24h'', ''7d'', ''all''}
   \<and> cutoff 10000000 ''constructor'' = None
   \<and> filterHistoryByTimeRange 10000000 [profile_at 10000001] ''constructor'' = []
   \<and> filter (\<lambda>item. startTime item > 10000000) [profile_at 10000001] = [profile_at 10000001]"
  by (simp add: filter_inherited cutoff_inherited Object_prototype_def profile_at_def)

section \<open>Properties of the workflow aggregator\<close>

lemma count_update_absent:
  "map_of al k = None \<Longrightarrow>
   length (filter P (AList.update k v al)) = length (filter P al) + (if P (k, v) then 1 else 0)"
  by (induction al) (auto split: if_splits)

lemma count_update_present:
  "map_of al k = Some old \<Longrightarrow>
   length (filter P (AList.update k v al)) + (if P (k, old) then 1 else 0)
     = length (filter P al) + (if P (k, v) then 1 else 0)"
  by (induction al) (auto split: if_splits)

lemma counted_new: "counted (new_profile p t)"
  by (simp add: counted_def new_profile_def resolved_nodes_def)

lemma counted_start:
  assumes "counted wp" and "map_of (nodes wp) n = None"
  shows "counted (start_node n ty t vb rb wp)"
  using assms
    count_update_absent [of "nodes wp" n "\<lambda>(n, np). cacheHit np \<noteq> None" "open_node ty t vb rb"]
  by (simp add: counted_def start_node_def put_node_def resolved_nodes_def open_node_def)

lemma counted_end:
  assumes "counted wp" and "end_node n t va ra err wp = Inr wp'"
  shows "counted wp'"
proof -
  from assms(2) obtain np where np: "map_of (nodes wp) n = Some np"
    and wp': "wp' = put_node n (np\<lparr>NodeProfile.endTime := Some t, vramAfter := va,
                                    ramAfter := ra, error := err\<rparr>) wp"
    by (auto simp add: end_node_def split: option.splits)
  from count_update_present [OF np, of "\<lambda>(n, np). cacheHit np \<noteq> None"
      "np\<lparr>NodeProfile.endTime := Some t, vramAfter := va, ramAfter := ra, error := err\<rparr>"]
  have "resolved_nodes wp' = resolved_nodes wp"
    by (simp add: wp' put_node_def resolved_nodes_def split: if_splits)
  with assms(1) show ?thesis by (simp add: counted_def wp' put_node_def)
qed

lemma counted_resolve:
  assumes "counted wp" and "resolve_cache n hit wp = Inr wp'"
  shows "counted wp'"
proof -
  from assms(2) obtain np where np: "map_of (nodes wp) n = Some np" and un: "cacheHit np = None"
    and wp': "wp' = (put_node n (np\<lparr>cacheHit := Some hit\<rparr>) wp)
                      \<lparr>cacheHits := cacheHits wp + (if hit then 1 else 0),
                       cacheMisses := cacheMisses wp + (if hit then 0 else 1)\<rparr>"
    by (auto simp add: resolve_cache_def split: option.splits)
  from count_update_present [OF np, of "\<lambda>(n, np). cacheHit np \<noteq> None"
      "np\<lparr>cacheHit := Some hit\<rparr>"] un
  have "resolved_nodes wp' = resolved_nodes wp + 1"
    by (simp add: wp' put_node_def resolved_nodes_def)
  with assms(1) show ?thesis by (simp add: counted_def wp' put_node_def)
qed

lemma all_counted_ingest:
  assumes "all_counted ag" and "fresh_start ag ev"
  shows "all_counted (ingest ev ag)"
proof (cases ev)
  case (NodeStart p n ty t vb rb)
  have "counted (start_node n ty t vb rb
          (case map_of (in_flight ag) p of None \<Rightarrow> new_profile p t | Some w \<Rightarrow> w))"
  proof (cases "map_of (in_flight ag) p")
    case None
    moreover have "map_of (nodes (new_profile p t)) n = None"
      by (simp add: new_profile_def)
    ultimately show ?thesis by (simp add: counted_start counted_new)
  next
    case (Some w)
    with assms NodeStart show ?thesis by (simp add: counted_start all_counted_def)
  qed
  with assms(1) show ?thesis
    by (simp add: NodeStart ingest_def onNodeStart_def all_counted_def update_conv')
next
  case (NodeEnd p n t va ra err)
  with assms(1) show ?thesis
    by (auto simp add: ingest_def onNodeEnd_def all_counted_def update_conv'
          split: option.splits sum.splits dest: counted_end)
next
  case (CacheResolved p n hit)
  with assms(1) show ?thesis
    by (auto simp add: ingest_def onCacheResolved_def all_counted_def update_conv'
          split: option.splits sum.splits dest: counted_resolve)
qed

lemma all_counted_fold:
  "all_counted ag \<Longrightarrow> well_paired ag evs \<Longrightarrow> all_counted (fold ingest evs ag)"
  by (induction evs arbitrary: ag) (simp_all add: all_counted_ingest)

lemma well_paired_take: "well_paired ag evs \<Longrightarrow> well_paired ag (take k evs)"
proof (induction evs arbitrary: ag k)
  case Nil
  then show ?case by simp
next
  case (Cons ev evs)
  then show ?case by (cases k) simp_all
qed

lemma all_counted_empty: "all_counted empty_aggregator"
  by (simp add: all_counted_def empty_aggregator_def)

lemmas aggregator_defs =
  empty_aggregator_def ingest_def onNodeStart_def onNodeEnd_def onCacheResolved_def
  start_node_def end_node_def resolve_cache_def put_node_def open_node_def new_profile_def

lemma scenario_first:
  "ingest (NodeStart ''p1'' ''n1'' ''KSampler'' 0 1000 0) empty_aggregator
     = \<lparr>in_flight = [(''p1'', scenario_started)], logged = []\<rparr>"
  by (simp add: scenario_started_def aggregator_defs)

lemma scenario_run:
  "fold ingest scenario empty_aggregator
     = \<lparr>in_flight = [(''p1'', scenario_profile)], logged = []\<rparr>"
  by (simp add: scenario_def scenario_profile_def aggregator_defs)

lemma scenario_well_paired: "well_paired empty_aggregator scenario"
  by (simp add: scenario_def aggregator_defs)

lemma scenario_observed: "observed ''p1'' empty_aggregator scenario = [(2000, 0)]"
  by (simp add: scenario_def aggregator_defs)

text \<open>
  The scenario of the spec ends with \<open>finalize(p1, t=100)\<close>, which hands over the
  profile with the expected start, end, counters and peak and leaves nothing in flight.
\<close>

lemma scenario_finalize:
  "finalize ''p1'' 100 (fold ingest scenario empty_aggregator)
     = Inr (scenario_profile\<lparr>endTime := Some 100\<rparr>, empty_aggregator)"
  unfolding scenario_run by (simp add: finalize_def empty_aggregator_def)

text \<open>
  The condition on starts is needed: when a node that has a cache outcome is started
  again, the new open profile replaces it and the counters keep their count.
\<close>

lemma restart_loses_count:
  "(case map_of (in_flight (fold ingest
            [NodeStart ''p1'' ''n1'' ''KSampler'' 0 1000 0,
             CacheResolved ''p1'' ''n1'' True,
             NodeStart ''p1'' ''n1'' ''KSampler'' 5 1000 0] empty_aggregator)) ''p1'' of
      None \<Rightarrow> False
    | Some wp \<Rightarrow> cacheHits wp + cacheMisses wp = 1 \<and> resolved_nodes wp = 0)"
  by (simp add: resolved_nodes_def aggregator_defs)

text \<open>
  C5. Take any sequence of start, end and cache-resolution events, fed to the empty
  aggregator, in which no start names a node that its run already holds. After every
  prefix of the sequence, every profile in flight has \<open>cacheHits + cacheMisses\<close> equal
  to the number of its nodes whose cache outcome is resolved.
\<close>

theorem cache_counters_count_resolved_nodes:
  assumes "well_paired empty_aggregator evs"
    and "map_of (in_flight (fold ingest (take k evs) empty_aggregator)) p = Some wp"
  shows "cacheHits wp + cacheMisses wp = resolved_nodes wp"
proof -
  have "all_counted (fold ingest (take k evs) empty_aggregator)"
    using assms(1) by (simp add: all_counted_fold all_counted_empty well_paired_take)
  with assms(2) show ?thesis by (simp add: all_counted_def counted_def)
qed

theorem cache_counters_count_resolved_nodes_witness:
  "well_paired empty_aggregator scenario
   \<and> map_of (in_flight (fold ingest (take 3 scenario) empty_aggregator)) ''p1''
       = Some scenario_profile
   \<and> cacheHits scenario_profile + cacheMisses scenario_profile = resolved_nodes scenario_profile
   \<and> resolved_nodes scenario_profile = 1"
proof -
  have t: "take 3 scenario = scenario" by (simp add: scenario_def)
  have m: "map_of (in_flight (fold ingest (take 3 scenario) empty_aggregator)) ''p1''
             = Some scenario_profile"
    by (simp add: t scenario_run)
  have r: "resolved_nodes scenario_profile = 1"
    by (auto simp add: resolved_nodes_def scenario_profile_def)
  from cache_counters_count_resolved_nodes [OF scenario_well_paired m] m scenario_well_paired r
  show ?thesis by simp
qed

lemma covered_new: "covered (new_profile p t)"
  by (simp add: covered_def new_profile_def)

lemma covered_put: "covered wp \<Longrightarrow> covered (put_node n np wp)"
  by (fastforce simp add: covered_def put_node_def update_conv' le_max_iff_disj)

lemma put_node_peaks:
  "totalVramPeak (put_node n np wp) = max (totalVramPeak wp) (vramAfter np)"
  "totalRamPeak (put_node n np wp) = max (totalRamPeak wp) (ramAfter np)"
  by (simp_all add: put_node_def)

lemma start_node_peaks:
  "totalVramPeak (start_node n ty t vb rb wp) = totalVramPeak wp"
  "totalRamPeak (start_node n ty t vb rb wp) = totalRamPeak wp"
  by (simp_all add: start_node_def put_node_def open_node_def)

lemma covered_start: "covered wp \<Longrightarrow> covered (start_node n ty t vb rb wp)"
  by (auto simp add: covered_def start_node_def put_node_def open_node_def update_conv')

lemma end_node_peaks:
  assumes "end_node n t va ra err wp = Inr wp'"
  shows "totalVramPeak wp' = max (totalVramPeak wp) va"
    and "totalRamPeak wp' = max (totalRamPeak wp) ra"
    and "covered wp \<Longrightarrow> covered wp'"
  using assms by (auto simp add: end_node_def put_node_peaks covered_put split: option.splits)

lemma resolve_cache_peaks:
  assumes "resolve_cache n hit wp = Inr wp'" and "covered wp"
  shows "totalVramPeak wp' = totalVramPeak wp"
    and "totalRamPeak wp' = totalRamPeak wp"
    and "covered wp'"
proof -
  from assms(1) obtain np where np: "map_of (nodes wp) n = Some np"
    and wp': "wp' = (put_node n (np\<lparr>cacheHit := Some hit\<rparr>) wp)
                      \<lparr>cacheHits := cacheHits wp + (if hit then 1 else 0),
                       cacheMisses := cacheMisses wp + (if hit then 0 else 1)\<rparr>"
    by (auto simp add: resolve_cache_def split: option.splits)
  from np assms(2) have le: "vramAfter np \<le> totalVramPeak wp" "ramAfter np \<le> totalRamPeak wp"
    by (simp_all add: covered_def)
  from le show "totalVramPeak wp' = totalVramPeak wp" "totalRamPeak wp' = totalRamPeak wp"
    by (simp_all add: wp' put_node_peaks)
  from covered_put [OF assms(2), of n "np\<lparr>cacheHit := Some hit\<rparr>"]
  show "covered wp'" by (simp add: wp' covered_def)
qed

lemma resolve_cache_mono:
  assumes "resolve_cache n hit wp = Inr wp'"
  shows "totalVramPeak wp \<le> totalVramPeak wp' \<and> totalRamPeak wp \<le> totalRamPeak wp'"
  using assms by (auto simp add: resolve_cache_def put_node_peaks split: option.splits)

lemma all_covered_ingest:
  assumes "all_covered ag"
  shows "all_covered (ingest ev ag)"
proof (cases ev)
  case (NodeStart p n ty t vb rb)
  have "covered (start_node n ty t vb rb
          (case map_of (in_flight ag) p of None \<Rightarrow> new_profile p t | Some w \<Rightarrow> w))"
    using assms by (auto simp add: covered_start covered_new all_covered_def split: option.splits)
  with assms show ?thesis
    by (simp add: NodeStart ingest_def onNodeStart_def all_covered_def update_conv')
next
  case (NodeEnd p n t va ra err)
  with assms show ?thesis
    by (auto simp add: ingest_def onNodeEnd_def all_covered_def update_conv'
          split: option.splits sum.splits dest: end_node_peaks(3))
next
  case (CacheResolved p n hit)
  with assms show ?thesis
    by (auto simp add: ingest_def onCacheResolved_def all_covered_def update_conv'
          split: option.splits sum.splits dest: resolve_cache_peaks(3))
qed

lemma peaks_ingest:
  assumes "all_covered ag"
  shows "fst (peaks_of (ingest ev ag) p)
           = fold max (map fst (reading p ag ev)) (fst (peaks_of ag p))
       \<and> snd (peaks_of (ingest ev ag) p)
           = fold max (map snd (reading p ag ev)) (snd (peaks_of ag p))"
proof (cases ev)
  case (NodeStart p' n ty t vb rb)
  then show ?thesis
    by (auto simp add: ingest_def onNodeStart_def peaks_of_def update_conv' start_node_peaks
          new_profile_def split: option.splits)
next
  case (NodeEnd p' n t va ra err)
  show ?thesis
  proof (cases "onNodeEnd p' n t va ra err ag")
    case (Inl e)
    then show ?thesis by (simp add: NodeEnd ingest_def peaks_of_def)
  next
    case (Inr ag')
    then obtain wp wp' where wp: "map_of (in_flight ag) p' = Some wp"
      and e: "end_node n t va ra err wp = Inr wp'"
      and ag': "ag' = ag\<lparr>in_flight := AList.update p' wp' (in_flight ag)\<rparr>"
      by (auto simp add: onNodeEnd_def split: option.splits sum.splits)
    show ?thesis
      using Inr wp end_node_peaks(1,2) [OF e]
      by (auto simp add: NodeEnd ingest_def peaks_of_def ag' update_conv' max.commute)
  qed
next
  case (CacheResolved p' n hit)
  show ?thesis
  proof (cases "onCacheResolved p' n hit ag")
    case (Inl e)
    then show ?thesis by (simp add: CacheResolved ingest_def peaks_of_def)
  next
    case (Inr ag')
    then obtain wp wp' where wp: "map_of (in_flight ag) p' = Some wp"
      and e: "resolve_cache n hit wp = Inr wp'"
      and ag': "ag' = ag\<lparr>in_flight := AList.update p' wp' (in_flight ag)\<rparr>"
      by (auto simp add: onCacheResolved_def split: option.splits sum.splits)
    from assms wp have "covered wp" by (simp add: all_covered_def)
    from resolve_cache_peaks(1,2) [OF e this]
    show ?thesis
      using Inr wp by (auto simp add: CacheResolved ingest_def peaks_of_def ag' update_conv')
  qed
qed

lemma peaks_fold:
  assumes "all_covered ag"
  shows "fst (peaks_of (fold ingest evs ag) p)
           = fold max (map fst (observed p ag evs)) (fst (peaks_of ag p))
       \<and> snd (peaks_of (fold ingest evs ag) p)
           = fold max (map snd (observed p ag evs)) (snd (peaks_of ag p))"
  using assms
proof (induction evs arbitrary: ag)
  case Nil
  then show ?case by simp
next
  case (Cons ev evs)
  from Cons.prems have "all_covered (ingest ev ag)" by (rule all_covered_ingest)
  from Cons.IH [OF this] peaks_ingest [OF Cons.prems, of ev p]
  show ?case by simp
qed

lemma all_covered_empty: "all_covered empty_aggregator"
  by (simp add: all_covered_def empty_aggregator_def)

lemma peaks_mono:
  assumes "map_of (in_flight ag) p = Some wp"
  shows "\<exists>wp'. map_of (in_flight (ingest ev ag)) p = Some wp'
           \<and> totalVramPeak wp \<le> totalVramPeak wp' \<and> totalRamPeak wp \<le> totalRamPeak wp'"
proof (cases ev)
  case (NodeStart p' n ty t vb rb)
  with assms show ?thesis
    by (auto simp add: ingest_def onNodeStart_def update_conv' start_node_peaks)
next
  case (NodeEnd p' n t va ra err)
  with assms show ?thesis
    by (auto simp add: ingest_def onNodeEnd_def update_conv' end_node_peaks(1,2)
          split: option.splits sum.splits)
next
  case (CacheResolved p' n hit)
  with assms show ?thesis
    by (auto simp add: ingest_def onCacheResolved_def update_conv'
          split: option.splits sum.splits dest: resolve_cache_mono)
qed

text \<open>
  C6. Whatever the state of the aggregator and whatever the event, a profile that is in
  flight is still in flight after the event and neither of its two peaks has decreased.
  And after any sequence of events fed to the empty aggregator, the peaks of a profile
  in flight are the maxima of the \<open>vramAfter\<close> and \<open>ramAfter\<close> readings observed in its
  run so far (of 0 and these readings: the peaks start at 0).
\<close>

theorem peaks_are_running_maxima:
  "(map_of (in_flight ag) p = Some wp \<longrightarrow>
      (\<exists>wp'. map_of (in_flight (ingest ev ag)) p = Some wp'
         \<and> totalVramPeak wp \<le> totalVramPeak wp' \<and> totalRamPeak wp \<le> totalRamPeak wp'))
   \<and> (map_of (in_flight (fold ingest evs empty_aggregator)) q = Some wq \<longrightarrow>
        totalVramPeak wq = Max (set (0 # map fst (observed q empty_aggregator evs)))
        \<and> totalRamPeak wq = Max (set (0 # map snd (observed q empty_aggregator evs))))"
proof -
  have z: "peaks_of empty_aggregator q = (0, 0)"
    by (simp add: peaks_of_def empty_aggregator_def)
  have m: "Max (set (0 # xs)) = fold max xs 0" for xs :: "nat list"
    by (rule Max.set_eq_fold)
  have "totalVramPeak wq = Max (set (0 # map fst (observed q empty_aggregator evs)))
        \<and> totalRamPeak wq = Max (set (0 # map snd (observed q empty_aggregator evs)))"
    if "map_of (in_flight (fold ingest evs empty_aggregator)) q = Some wq"
  proof -
    from that have "peaks_of (fold ingest evs empty_aggregator) q
                      = (totalVramPeak wq, totalRamPeak wq)"
      by (simp add: peaks_of_def)
    with peaks_fold [OF all_covered_empty, of evs q] show ?thesis
      by (simp only: m z fst_conv snd_conv)
  qed
  with peaks_mono [of ag p wp ev] show ?thesis by blast
qed

theorem peaks_are_running_maxima_witness:
  "map_of (in_flight (ingest (NodeStart ''p1'' ''n1'' ''KSampler'' 0 1000 0) empty_aggregator))
       ''p1'' = Some scenario_started
   \<and> totalVramPeak scenario_started = 0
   \<and> (\<exists>wp'. map_of (in_flight (ingest (NodeEnd ''p1'' ''n1'' 100 2000 0 None)
                 (ingest (NodeStart ''p1'' ''n1'' ''KSampler'' 0 1000 0) empty_aggregator)))
               ''p1'' = Some wp'
         \<and> totalVramPeak scenario_started \<le> totalVramPeak wp'
         \<and> totalRamPeak scenario_started \<le> totalRamPeak wp')
   \<and> map_of (in_flight (fold ingest scenario empty_aggregator)) ''p1'' = Some scenario_profile
   \<and> totalVramPeak scenario_profile = 2000
   \<and> Max (set (0 # map fst (observed ''p1'' empty_aggregator scenario))) = 2000
   \<and> totalRamPeak scenario_profile = Max (set (0 # map snd (observed ''p1'' empty_aggregator scenario)))"
proof -
  have a: "map_of (in_flight (ingest (NodeStart ''p1'' ''n1'' ''KSampler'' 0 1000 0)
             empty_aggregator)) ''p1'' = Some scenario_started"
    by (simp add: scenario_first)
  have b: "map_of (in_flight (fold ingest scenario empty_aggregator)) ''p1''
             = Some scenario_profile"
    by (simp add: scenario_run)
  have c: "totalVramPeak scenario_started = 0" "totalVramPeak scenario_profile = 2000"
    by (simp_all add: scenario_started_def scenario_profile_def)
  from peaks_are_running_maxima
         [of "ingest (NodeStart ''p1'' ''n1'' ''KSampler'' 0 1000 0) empty_aggregator"
             "''p1''" scenario_started "NodeEnd ''p1'' ''n1'' 100 2000 0 None"
             scenario "''p1''" scenario_profile]
       a b c
  show ?thesis by simp
qed

section \<open>Properties of the running-average tracker\<close>

lemma average_guarded: "average s n = Inr (if n = 0 then 0 else s / real n)"
  by (simp add: average_def divide_checked_def)

lemma node_average_of_value:
  "node_average_of acc =
     Inr \<lparr>node_average.avg_time =
            (if node_accumulator.count acc = 0 then 0
             else real_of_int (node_accumulator.total_time acc)
                    / real (node_accumulator.count acc)),
          avg_vram =
            (if node_accumulator.count acc = 0 then 0
             else real_of_int (vram_usage acc) / real (node_accumulator.count acc)),
          avg_ram =
            (if node_accumulator.count acc = 0 then 0
             else real_of_int (ram_usage acc) / real (node_accumulator.count acc)),
          node_average.count = node_accumulator.count acc,
          cache_hit_ratio =
            (if node_accumulator.count acc = 0 then 0
             else real (cache_hits acc) / real (node_accumulator.count acc))\<rparr>"
  by (simp add: node_average_of_def average_guarded and_then_def)

lemma getNodeAverages_value:
  "getNodeAverages m =
     Inr (map (\<lambda>(ty, acc).
            (ty, \<lparr>node_average.avg_time =
                   (if node_accumulator.count acc = 0 then 0
                    else real_of_int (node_accumulator.total_time acc)
                           / real (node_accumulator.count acc)),
                 avg_vram =
                   (if node_accumulator.count acc = 0 then 0
                    else real_of_int (vram_usage acc) / real (node_accumulator.count acc)),
                 avg_ram =
                   (if node_accumulator.count acc = 0 then 0
                    else real_of_int (ram_usage acc) / real (node_accumulator.count acc)),
                 node_average.count = node_accumulator.count acc,
                 cache_hit_ratio =
                   (if node_accumulator.count acc = 0 then 0
                    else real (cache_hits acc) / real (node_accumulator.count acc))\<rparr>)) m)"
proof (induction m)
  case Nil
  show ?case by simp
next
  case (Cons x m)
  obtain ty acc where x: "x = (ty, acc)" by (cases x)
  show ?case
    unfolding x getNodeAverages.simps Cons.IH node_average_of_value
    by (simp add: and_then_def)
qed

lemma getWorkflowAverages_value:
  "getWorkflowAverages w =
     Inr \<lparr>workflow_average.avg_time =
            (if workflow_accumulator.count w = 0 then 0
             else real_of_int (workflow_accumulator.total_time w)
                    / real (workflow_accumulator.count w)),
          avg_vram_peak =
            (if workflow_accumulator.count w = 0 then 0
             else real (vram_peak w) / real (workflow_accumulator.count w)),
          avg_ram_peak =
            (if workflow_accumulator.count w = 0 then 0
             else real (ram_peak w) / real (workflow_accumulator.count w)),
          workflow_average.count = workflow_accumulator.count w\<rparr>"
  by (simp add: getWorkflowAverages_def average_guarded and_then_def)

text \<open>
  The node of the scenario folded into an empty accumulator: one sample, average time
  100 and cache hit ratio 1, as the spec expects for \<^verbatim>\<open>KSampler\<close>.
\<close>

lemma scenario_average:
  "getNodeAverages
     [(''KSampler'',
       fold_node (snd (hd (nodes scenario_profile)))
         \<lparr>node_accumulator.total_time = 0, vram_usage = 0, ram_usage = 0,
          node_accumulator.count = 0, cache_hits = 0\<rparr>)]
   = Inr [(''KSampler'',
           \<lparr>node_average.avg_time = 100, avg_vram = 1000, avg_ram = 0,
            node_average.count = 1, cache_hit_ratio = 1\<rparr>)]"
  by (simp add: getNodeAverages_value fold_node_def scenario_profile_def)

text \<open>
  C7. For every accumulator state a query of an average answers, never with the
  division fault: with \<open>sum / count\<close> when \<open>count > 0\<close> and with 0 when \<open>count = 0\<close>.
  This holds for the single average, for the averages of all node types and for the
  workflow averages; and after a fold the count is positive, so the averages of the
  folded accumulator are its sums over its count.
\<close>

theorem averages_never_fault:
  "average s n = Inr (if n = 0 then 0 else s / real n)
   \<and> getNodeAverages m =
       Inr (map (\<lambda>(ty, acc).
              (ty, \<lparr>node_average.avg_time =
                     (if node_accumulator.count acc = 0 then 0
                      else real_of_int (node_accumulator.total_time acc)
                             / real (node_accumulator.count acc)),
                   avg_vram =
                     (if node_accumulator.count acc = 0 then 0
                      else real_of_int (vram_usage acc) / real (node_accumulator.count acc)),
                   avg_ram =
                     (if node_accumulator.count acc = 0 then 0
                      else real_of_int (ram_usage acc) / real (node_accumulator.count acc)),
                   node_average.count = node_accumulator.count acc,
                   cache_hit_ratio =
                     (if node_accumulator.count acc = 0 then 0
                      else real (cache_hits acc) / real (node_accumulator.count acc))\<rparr>)) m)
   \<and> getWorkflowAverages w =
       Inr \<lparr>workflow_average.avg_time =
              (if workflow_accumulator.count w = 0 then 0
               else real_of_int (workflow_accumulator.total_time w)
                      / real (workflow_accumulator.count w)),
            avg_vram_peak =
              (if workflow_accumulator.count w = 0 then 0
               else real (vram_peak w) / real (workflow_accumulator.count w)),
            avg_ram_peak =
              (if workflow_accumulator.count w = 0 then 0
               else real (ram_peak w) / real (workflow_accumulator.count w)),
            workflow_average.count = workflow_accumulator.count w\<rparr>
   \<and> node_average_of (fold_node np a) =
       Inr \<lparr>node_average.avg_time =
              real_of_int (node_accumulator.total_time (fold_node np a))
                / real (node_accumulator.count (fold_node np a)),
            avg_vram =
              real_of_int (vram_usage (fold_node np a))
                / real (node_accumulator.count (fold_node np a)),
            avg_ram =
              real_of_int (ram_usage (fold_node np a))
                / real (node_accumulator.count (fold_node np a)),
            node_average.count = node_accumulator.count a + 1,
            cache_hit_ratio =
              real (cache_hits (fold_node np a))
                / real (node_accumulator.count (fold_node np a))\<rparr>"
proof -
  have c: "node_accumulator.count (fold_node np a) = node_accumulator.count a + 1"
    by (simp add: fold_node_def)
  have "node_average_of (fold_node np a) =
       Inr \<lparr>node_average.avg_time =
              real_of_int (node_accumulator.total_time (fold_node np a))
                / real (node_accumulator.count (fold_node np a)),
            avg_vram =
              real_of_int (vram_usage (fold_node np a))
                / real (node_accumulator.count (fold_node np a)),
            avg_ram =
              real_of_int (ram_usage (fold_node np a))
                / real (node_accumulator.count (fold_node np a)),
            node_average.count = node_accumulator.count a + 1,
            cache_hit_ratio =
              real (cache_hits (fold_node np a))
                / real (node_accumulator.count (fold_node np a))\<rparr>"
    unfolding node_average_of_value by (simp add: c)
  then show ?thesis
    by (simp only: average_guarded getNodeAverages_value getWorkflowAverages_value simp_thms)
qed

section \<open>Properties of the history store\<close>

lemma history_append_bound:
  "length (entries (snd (history_append cfg now wp hs))) \<le> maxDataPoints cfg"
  by (simp add: history_append_def Let_def)

lemma append_all_bound:
  "length (entries hs) \<le> maxDataPoints cfg \<Longrightarrow>
   length (entries (append_all cfg xs hs)) \<le> maxDataPoints cfg"
  unfolding append_all_def
  by (induction xs arbitrary: hs) (auto simp add: history_append_bound)

lemma history_append_split:
  "fst (history_append cfg now wp hs) @ entries (snd (history_append cfg now wp hs))
     = entries hs @ [\<lparr>profile = wp, insertedAt = now\<rparr>]"
  by (simp add: history_append_def Let_def del: take_append drop_append)

lemma history_append_evicted_length:
  "length (fst (history_append cfg now wp hs)) = length (entries hs) + 1 - maxDataPoints cfg"
  by (simp add: history_append_def Let_def del: take_append drop_append)

text \<open>
  C8. After an append the store holds at most \<open>maxDataPoints\<close> entries, whatever it
  held before, and so it does after any sequence of appends to the empty store. The
  entries an append evicts, followed by the entries it keeps, are the entries held at
  that time, oldest first, with the new entry last: the evicted ones are the oldest, in
  order, and there are as many of them as the store exceeded \<open>maxDataPoints\<close> by.
\<close>

theorem history_bounded_oldest_evicted:
  "length (entries (snd (history_append cfg now wp hs))) \<le> maxDataPoints cfg
   \<and> fst (history_append cfg now wp hs) @ entries (snd (history_append cfg now wp hs))
       = entries hs @ [\<lparr>profile = wp, insertedAt = now\<rparr>]
   \<and> length (fst (history_append cfg now wp hs)) = length (entries hs) + 1 - maxDataPoints cfg
   \<and> length (entries (append_all cfg xs (empty_store a))) \<le> maxDataPoints cfg"
proof -
  have "length (entries (append_all cfg xs (empty_store a))) \<le> maxDataPoints cfg"
    by (rule append_all_bound) (simp add: empty_store_def)
  then show ?thesis
    by (simp only: history_append_bound history_append_split history_append_evicted_length
          simp_thms)
qed

end
